theory Spec2Isabelle
  imports
    Main
    "HOL-Library.Word"
    "HOL-Library.Sublist"
    "HOL-Library.Char_ord"
    "HOL-Library.List_Lexorder"
begin

unbundle bit_operations_syntax

section \<open>bboltfs: a filesystem on top of an ordered key-value store\<close>

text \<open>
  The development embeds \<^verbatim>\<open>bboltfs.go\<close>, \<^verbatim>\<open>file.go\<close> and \<^verbatim>\<open>dir.go\<close>.
  Go's \<^verbatim>\<open>int64\<close> is \<open>64 word\<close> (read as two's complement by \<open>sint\<close>),
  \<^verbatim>\<open>os.FileMode\<close> is \<open>32 word\<close>, a byte slice is a list of \<open>8 word\<close>, and a Go
  \<^verbatim>\<open>string\<close> is a \<open>string\<close> (a list of bytes). A run-time panic (a slice expression
  out of range) is the value \<open>Panics\<close>; every panic of the modelled code happens before
  the first assignment to the handle or the store, so it carries no state.
\<close>

subsection \<open>Values, errors and slices\<close>

type_synonym byte = "8 word"
type_synonym bytes = "byte list"
type_synonym int64 = "64 word"
type_synonym FileMode = "32 word"

datatype error =
    ErrClosed          \<comment> \<open>\<^verbatim>\<open>os.ErrClosed\<close>\<close>
  | ErrInvalid         \<comment> \<open>\<^verbatim>\<open>os.ErrInvalid\<close>\<close>
  | ErrNotExist        \<comment> \<open>\<^verbatim>\<open>os.ErrNotExist\<close>\<close>
  | EOF                \<comment> \<open>\<^verbatim>\<open>io.EOF\<close>\<close>
  | errors_New string  \<comment> \<open>\<^verbatim>\<open>errors.New(msg)\<close>\<close>

datatype 'a outcome = Returns 'a | Panics

definition ErrFileNotFound :: error where
  "ErrFileNotFound = ErrNotExist"

definition SeekStart :: int where "SeekStart = 0"
definition SeekCurrent :: int where "SeekCurrent = 1"
definition SeekEnd :: int where "SeekEnd = 2"

text \<open>Go's builtin \<^verbatim>\<open>copy(dst, src)\<close>: the number of bytes copied and \<open>dst\<close> afterwards.\<close>

definition copy :: "bytes \<Rightarrow> bytes \<Rightarrow> nat \<times> bytes" where
  "copy dst src = (let n = min (length dst) (length src) in (n, take n src @ drop n dst))"

text \<open>\<^verbatim>\<open>make([]byte, n)\<close>: \<open>n\<close> zero bytes.\<close>

definition make_bytes :: "nat \<Rightarrow> bytes" where
  "make_bytes n = replicate n 0"

text \<open>The slice expressions \<^verbatim>\<open>s[i:]\<close> and \<^verbatim>\<open>s[:i]\<close>; \<open>None\<close> is the run-time panic.\<close>

definition slice_from :: "bytes \<Rightarrow> int \<Rightarrow> bytes option" where
  "slice_from s i = (if 0 \<le> i \<and> i \<le> int (length s) then Some (drop (nat i) s) else None)"

definition slice_to :: "bytes \<Rightarrow> int \<Rightarrow> bytes option" where
  "slice_to s i = (if 0 \<le> i \<and> i \<le> int (length s) then Some (take (nat i) s) else None)"

subsection \<open>Metadata codec\<close>

record fileMeta =
  Mode :: FileMode
  Size :: int64
  ModTime :: int64
  IsDir :: bool

text \<open>\<^verbatim>\<open>binary.LittleEndian\<close>: least significant byte first.\<close>

definition PutUint32 :: "32 word \<Rightarrow> bytes" where
  "PutUint32 v = [ucast v, ucast (drop_bit 8 v), ucast (drop_bit 16 v), ucast (drop_bit 24 v)]"

definition PutUint64 :: "64 word \<Rightarrow> bytes" where
  "PutUint64 v = [ucast v, ucast (drop_bit 8 v), ucast (drop_bit 16 v), ucast (drop_bit 24 v),
     ucast (drop_bit 32 v), ucast (drop_bit 40 v), ucast (drop_bit 48 v), ucast (drop_bit 56 v)]"

fun Uint32 :: "bytes \<Rightarrow> 32 word" where
  "Uint32 [b0, b1, b2, b3] =
     ucast b0 OR push_bit 8 (ucast b1) OR push_bit 16 (ucast b2) OR push_bit 24 (ucast b3)"
| "Uint32 _ = 0"

fun Uint64 :: "bytes \<Rightarrow> 64 word" where
  "Uint64 [b0, b1, b2, b3, b4, b5, b6, b7] =
     ucast b0 OR push_bit 8 (ucast b1) OR push_bit 16 (ucast b2) OR push_bit 24 (ucast b3)
     OR push_bit 32 (ucast b4) OR push_bit 40 (ucast b5) OR push_bit 48 (ucast b6)
     OR push_bit 56 (ucast b7)"
| "Uint64 _ = 0"

text \<open>
  \<^verbatim>\<open>binary.Read\<close> on a \<^verbatim>\<open>bytes.Reader\<close> asks \<^verbatim>\<open>io.ReadFull\<close> for \<open>n\<close> bytes. The
  reader is the list of bytes not yet read. When fewer than \<open>n\<close> bytes are left they are
  consumed, the read fails and the destination keeps its zero value; \<open>decodeMeta\<close>
  ignores the error.
\<close>

definition ReadFull :: "nat \<Rightarrow> bytes \<Rightarrow> bytes option \<times> bytes" where
  "ReadFull n r = (if n \<le> length r then (Some (take n r), drop n r) else (None, []))"

definition metaLen :: nat where
  "metaLen = 4 + 8 + 8 + 1"

definition encodeMeta :: "fileMeta \<Rightarrow> bytes" where
  "encodeMeta m =
     (let buf = [];
          buf = buf @ PutUint32 (Mode m);
          buf = buf @ PutUint64 (Size m);
          buf = buf @ PutUint64 (ModTime m);
          buf = buf @ [if IsDir m then 1 else 0]
      in buf)"

definition decodeMeta :: "bytes \<Rightarrow> fileMeta" where
  "decodeMeta b =
     (let (x, r) = ReadFull 4 b;
          mode = (case x of Some bs \<Rightarrow> Uint32 bs | None \<Rightarrow> 0);
          (x, r) = ReadFull 8 r;
          size = (case x of Some bs \<Rightarrow> Uint64 bs | None \<Rightarrow> 0);
          (x, r) = ReadFull 8 r;
          modTime = (case x of Some bs \<Rightarrow> Uint64 bs | None \<Rightarrow> 0);
          (x, r) = ReadFull 1 r;
          isDir = (case x of Some bs \<Rightarrow> hd bs \<noteq> 0 | None \<Rightarrow> False)
      in \<lparr>Mode = mode, Size = size, ModTime = modTime, IsDir = isDir\<rparr>)"

subsection \<open>The key-value backend\<close>

text \<open>
  Modelled from the spec: the transactional ordered store (\<^verbatim>\<open>go.etcd.io/bbolt\<close>) is an
  external collaborator whose code is not part of the repository. Following the contract
  of the spec's section 6, a collection (bucket) is a list of key-value pairs kept in
  ascending bytewise key order, with get, put and delete by key and a forward cursor
  that seeks to the first key not below a given one. Storage failures (I/O, size limits)
  are outside the model: \<open>Bucket_Put\<close> and \<open>Bucket_Delete\<close> return the \<^verbatim>\<open>nil\<close> error,
  and deleting an absent key succeeds. A cursor iterates over the keys as they were when
  it was positioned.
\<close>

type_synonym bucket = "(string \<times> bytes) list"

record BBolt =
  bucketFiles :: bucket
  bucketDirs :: bucket

fun insert_entry :: "string \<Rightarrow> bytes \<Rightarrow> bucket \<Rightarrow> bucket" where
  "insert_entry k v [] = [(k, v)]"
| "insert_entry k v (e # b) =
     (if k < fst e then (k, v) # e # b
      else if k = fst e then (k, v) # b
      else e # insert_entry k v b)"

definition Bucket_Get :: "bucket \<Rightarrow> string \<Rightarrow> bytes option" where
  "Bucket_Get b k = map_of b k"

definition Bucket_Put :: "string \<Rightarrow> bytes \<Rightarrow> bucket \<Rightarrow> error option \<times> bucket" where
  "Bucket_Put k v b = (None, insert_entry k v b)"

definition Bucket_Delete :: "string \<Rightarrow> bucket \<Rightarrow> error option \<times> bucket" where
  "Bucket_Delete k b = (None, filter (\<lambda>e. fst e \<noteq> k) b)"

definition Cursor_Seek :: "bucket \<Rightarrow> string \<Rightarrow> (string \<times> bytes) list" where
  "Cursor_Seek b seek = dropWhile (\<lambda>e. fst e < seek) b"

text \<open>\<^verbatim>\<open>db.Update(fn)\<close> commits when \<open>fn\<close> returns \<^verbatim>\<open>nil\<close> and rolls back otherwise.\<close>

definition Update :: "(BBolt \<Rightarrow> error option \<times> BBolt) \<Rightarrow> BBolt \<Rightarrow> error option \<times> BBolt" where
  "Update fn db = (case fn db of (None, tx) \<Rightarrow> (None, tx) | (Some e, tx) \<Rightarrow> (Some e, db))"

definition sorted_bucket :: "bucket \<Rightarrow> bool" where
  "sorted_bucket b = sorted_wrt (<) (map fst b)"

definition HasPrefix :: "string \<Rightarrow> string \<Rightarrow> bool" where
  "HasPrefix s pfx = prefix pfx s"

subsection \<open>The standard library's byte buffer\<close>

text \<open>
  \<^verbatim>\<open>bytes.Buffer\<close> holds its contents in \<open>buf\<close> and the read cursor in \<open>off\<close>; the
  unread part is \<open>buf[off:]\<close>. \<^verbatim>\<open>Bytes\<close> and \<^verbatim>\<open>Len\<close> are the unread part and its
  length, \<^verbatim>\<open>Read\<close> advances the cursor, \<^verbatim>\<open>Write\<close> appends (capacity management is
  not modelled; it never changes the unread part).
\<close>

record Buffer =
  buf :: bytes
  off :: nat

definition NewBuffer :: "bytes \<Rightarrow> Buffer" where
  "NewBuffer b = \<lparr>buf = b, off = 0\<rparr>"

definition Buffer_Bytes :: "Buffer \<Rightarrow> bytes" where
  "Buffer_Bytes b = drop (off b) (buf b)"

definition Buffer_Len :: "Buffer \<Rightarrow> nat" where
  "Buffer_Len b = length (buf b) - off b"

definition Buffer_Read :: "Buffer \<Rightarrow> bytes \<Rightarrow> (nat \<times> error option) \<times> bytes \<times> Buffer" where
  "Buffer_Read b p =
     (if length (buf b) \<le> off b then
        (let b = b\<lparr>buf := [], off := 0\<rparr>
         in if length p = 0 then ((0, None), p, b) else ((0, Some EOF), p, b))
      else
        (let (n, p) = copy p (drop (off b) (buf b))
         in ((n, None), p, b\<lparr>off := off b + n\<rparr>)))"

definition Buffer_Write :: "Buffer \<Rightarrow> bytes \<Rightarrow> (nat \<times> error option) \<times> Buffer" where
  "Buffer_Write b p = ((length p, None), b\<lparr>buf := buf b @ p\<rparr>)"

subsection \<open>Handles\<close>

record bboltFile =
  name :: string
  meta :: fileMeta
  buffer :: Buffer
  offset :: int64
  closed :: bool

record bboltDirFile =
  dname :: string
  dmeta :: fileMeta

datatype File = FileHandle bboltFile | DirHandle bboltDirFile

text \<open>\<^verbatim>\<open>[]byte(s)\<close> for a Go string.\<close>

definition string_bytes :: "string \<Rightarrow> bytes" where
  "string_bytes s = map (\<lambda>c. of_nat (of_char c)) s"

subsection \<open>Path store: bboltfs.go\<close>

definition saveFile :: "string \<Rightarrow> bytes \<Rightarrow> fileMeta \<Rightarrow> BBolt \<Rightarrow> error option \<times> BBolt" where
  "saveFile nm data m db =
     Update (\<lambda>tx.
       let b = bucketFiles tx;
           key = nm;
           val = encodeMeta m @ data;
           (err, b) = Bucket_Put key val b
       in (err, tx\<lparr>bucketFiles := b\<rparr>)) db"

definition zeroMeta :: fileMeta where
  "zeroMeta = \<lparr>Mode = 0, Size = 0, ModTime = 0, IsDir = False\<rparr>"

definition loadFile :: "string \<Rightarrow> BBolt \<Rightarrow> (bytes \<times> fileMeta \<times> error option) outcome" where
  "loadFile nm db =
     (let b = bucketFiles db
      in case Bucket_Get b nm of
           None \<Rightarrow> Returns ([], zeroMeta, Some ErrFileNotFound)
         | Some val \<Rightarrow>
             (let m = decodeMeta val
              in case slice_from val (int metaLen) of
                   None \<Rightarrow> Panics
                 | Some data \<Rightarrow> Returns (data, m, None)))"

definition saveDir :: "string \<Rightarrow> fileMeta \<Rightarrow> BBolt \<Rightarrow> error option \<times> BBolt" where
  "saveDir nm m db =
     Update (\<lambda>tx.
       let b = bucketDirs tx;
           (err, b) = Bucket_Put nm (encodeMeta m) b
       in (err, tx\<lparr>bucketDirs := b\<rparr>)) db"

text \<open>
  \<open>now\<close> is the value of \<^verbatim>\<open>time.Now().UnixNano()\<close> at the call; the default mode,
  octal \<^verbatim>\<open>0666\<close>, is 438.
\<close>

definition Create :: "string \<Rightarrow> int64 \<Rightarrow> BBolt \<Rightarrow> (error + bboltFile) \<times> BBolt" where
  "Create nm now db =
     (let m = \<lparr>Mode = 438, Size = 0, ModTime = now, IsDir = False\<rparr>;
          b = NewBuffer []
      in case saveFile nm (Buffer_Bytes b) m db of
           (Some err, db) \<Rightarrow> (Inl err, db)
         | (None, db) \<Rightarrow>
             (Inr \<lparr>name = nm, meta = m, buffer = b, offset = 0, closed = False\<rparr>, db))"

definition ModeDir :: FileMode where
  "ModeDir = push_bit 31 1"

definition Mkdir :: "string \<Rightarrow> FileMode \<Rightarrow> int64 \<Rightarrow> BBolt \<Rightarrow> error option \<times> BBolt" where
  "Mkdir nm perm now db =
     (let m = \<lparr>Mode = perm OR ModeDir, Size = 0, ModTime = now, IsDir = True\<rparr>
      in saveDir nm m db)"

definition Open :: "string \<Rightarrow> BBolt \<Rightarrow> (error + File) outcome" where
  "Open nm db =
     (case loadFile nm db of
        Panics \<Rightarrow> Panics
      | Returns (data, m, None) \<Rightarrow>
          Returns (Inr (FileHandle
            \<lparr>name = nm, meta = m, buffer = NewBuffer data, offset = 0, closed = False\<rparr>))
      | Returns (data, m, Some err) \<Rightarrow>
          (case Bucket_Get (bucketDirs db) nm of
             None \<Rightarrow> Returns (Inl ErrFileNotFound)
           | Some val \<Rightarrow> Returns (Inr (DirHandle \<lparr>dname = nm, dmeta = decodeMeta val\<rparr>))))"

definition Remove :: "string \<Rightarrow> BBolt \<Rightarrow> error option \<times> BBolt" where
  "Remove nm db =
     Update (\<lambda>tx.
       let (err, b) = Bucket_Delete nm (bucketFiles tx)
       in (err, tx\<lparr>bucketFiles := b\<rparr>)) db"

text \<open>
  The loop of \<open>RemoveAll\<close>: \<open>c\<close> is the cursor, the entries from the sought position
  on; it stops at the end of the bucket or at the first key without the prefix.
\<close>

fun RemoveAll_loop :: "string \<Rightarrow> (string \<times> bytes) list \<Rightarrow> bucket \<Rightarrow> error option \<times> bucket" where
  "RemoveAll_loop pfx [] b = (None, b)"
| "RemoveAll_loop pfx (kv # c) b =
     (if HasPrefix (fst kv) pfx then
        (case Bucket_Delete (fst kv) b of
           (Some err, b) \<Rightarrow> (Some err, b)
         | (None, b) \<Rightarrow> RemoveAll_loop pfx c b)
      else (None, b))"

definition RemoveAll :: "string \<Rightarrow> BBolt \<Rightarrow> error option \<times> BBolt" where
  "RemoveAll p db =
     (case Update (\<lambda>tx.
              let b = bucketFiles tx;
                  pfx = p;
                  (err, b) = RemoveAll_loop pfx (Cursor_Seek b pfx) b
              in (err, tx\<lparr>bucketFiles := b\<rparr>)) db of
        (Some err, db) \<Rightarrow> (Some err, db)
      | (None, db) \<Rightarrow>
          Update (\<lambda>tx.
            let (err, b) = Bucket_Delete p (bucketDirs tx)
            in (err, tx\<lparr>bucketDirs := b\<rparr>)) db)"

definition Rename :: "string \<Rightarrow> string \<Rightarrow> BBolt \<Rightarrow> (error option \<times> BBolt) outcome" where
  "Rename oldname newname db =
     (case loadFile oldname db of
        Panics \<Rightarrow> Panics
      | Returns (data, m, Some err) \<Rightarrow> Returns (Some err, db)
      | Returns (data, m, None) \<Rightarrow>
          (case saveFile newname data m db of
             (Some err, db) \<Rightarrow> Returns (Some err, db)
           | (None, db) \<Rightarrow> Returns (Remove oldname db)))"

definition Chmod :: "string \<Rightarrow> FileMode \<Rightarrow> BBolt \<Rightarrow> (error option \<times> BBolt) outcome" where
  "Chmod nm mode db =
     (case loadFile nm db of
        Panics \<Rightarrow> Panics
      | Returns (data, m, Some err) \<Rightarrow> Returns (Some err, db)
      | Returns (data, m, None) \<Rightarrow> Returns (saveFile nm data (m\<lparr>Mode := mode\<rparr>) db))"

text \<open>\<open>mtime\<close> is \<^verbatim>\<open>mtime.UnixNano()\<close>; \<open>atime\<close> is not used.\<close>

definition Chtimes :: "string \<Rightarrow> int64 \<Rightarrow> int64 \<Rightarrow> BBolt \<Rightarrow> (error option \<times> BBolt) outcome" where
  "Chtimes nm atime mtime db =
     (case loadFile nm db of
        Panics \<Rightarrow> Panics
      | Returns (data, m, Some err) \<Rightarrow> Returns (Some err, db)
      | Returns (data, m, None) \<Rightarrow> Returns (saveFile nm data (m\<lparr>ModTime := mtime\<rparr>) db))"

subsection \<open>File handle: file.go\<close>

text \<open>
  A method returns its results, the caller's slice \<open>p\<close> when it writes into it, the
  handle and the store afterwards. The length of a Go slice is below \<open>2 ^ 63\<close>, so
  \<^verbatim>\<open>int64(len(buf))\<close> and \<^verbatim>\<open>int(size)\<close> are compared as integers; where the code
  stores or adds such a value in an \<^verbatim>\<open>int64\<close> it is converted (\<open>of_nat\<close>) and the
  addition wraps.
\<close>

definition bboltFile_Read ::
  "bboltFile \<Rightarrow> bytes \<Rightarrow> (nat \<times> error option) \<times> bytes \<times> bboltFile" where
  "bboltFile_Read f p =
     (if closed f then ((0, Some ErrClosed), p, f)
      else (let (r, p, b) = Buffer_Read (buffer f) p in (r, p, f\<lparr>buffer := b\<rparr>)))"

definition bboltFile_ReadAt ::
  "bboltFile \<Rightarrow> bytes \<Rightarrow> int64 \<Rightarrow> ((nat \<times> error option) \<times> bytes \<times> bboltFile) outcome" where
  "bboltFile_ReadAt f p ofs =
     (if closed f then Returns ((0, Some ErrClosed), p, f)
      else
        (let bs = Buffer_Bytes (buffer f)
         in if int (length bs) \<le> sint ofs then Returns ((0, Some EOF), p, f)
            else
              (case slice_from bs (sint ofs) of
                 None \<Rightarrow> Panics
               | Some src \<Rightarrow>
                   (let (n, p) = copy p src
                    in if n = 0 then Returns ((0, Some EOF), p, f)
                       else Returns ((n, None), p, f)))))"

definition bboltFile_Seek ::
  "bboltFile \<Rightarrow> int64 \<Rightarrow> int \<Rightarrow> (int64 \<times> error option) \<times> bboltFile" where
  "bboltFile_Seek f ofs whence =
     (if closed f then ((0, Some ErrClosed), f)
      else
        (case (if whence = SeekStart then Some ofs
               else if whence = SeekCurrent then Some (of_nat (Buffer_Len (buffer f)) + ofs)
               else if whence = SeekEnd then Some (of_nat (Buffer_Len (buffer f)) + ofs)
               else None) of
           None \<Rightarrow> ((0, Some (errors_New ''invalid whence'')), f)
         | Some abs' \<Rightarrow>
             if sint abs' < 0 then ((0, Some (errors_New ''negative position'')), f)
             else ((abs', None), f\<lparr>offset := abs'\<rparr>)))"

definition bboltFile_Write ::
  "bboltFile \<Rightarrow> bytes \<Rightarrow> int64 \<Rightarrow> BBolt \<Rightarrow> (nat \<times> error option) \<times> bboltFile \<times> BBolt" where
  "bboltFile_Write f p now db =
     (if closed f then ((0, Some ErrClosed), f, db)
      else
        (let ((n, err), b) = Buffer_Write (buffer f) p;
             f = f\<lparr>buffer := b\<rparr>
         in case err of
              Some e \<Rightarrow> ((n, Some e), f, db)
            | None \<Rightarrow>
                (let f = f\<lparr>meta := (meta f)\<lparr>Size := of_nat (Buffer_Len (buffer f))\<rparr>\<rparr>;
                     f = f\<lparr>meta := (meta f)\<lparr>ModTime := now\<rparr>\<rparr>;
                     (err, db) = saveFile (name f) (Buffer_Bytes (buffer f)) (meta f) db
                 in ((n, err), f, db))))"

definition bboltFile_WriteAt ::
  "bboltFile \<Rightarrow> bytes \<Rightarrow> int64 \<Rightarrow> int64 \<Rightarrow> BBolt
     \<Rightarrow> ((nat \<times> error option) \<times> bboltFile \<times> BBolt) outcome" where
  "bboltFile_WriteAt f p ofs now db =
     (if closed f then Returns ((0, Some ErrClosed), f, db)
      else
        (let bs = Buffer_Bytes (buffer f);
             (f, bs) =
               (if int (length bs) < sint ofs then
                  (let padding = make_bytes (nat (sint ofs - int (length bs)));
                       f = f\<lparr>buffer := snd (Buffer_Write (buffer f) padding)\<rparr>
                   in (f, Buffer_Bytes (buffer f)))
                else (f, bs));
             tmp = make_bytes (length bs);
             tmp = snd (copy tmp bs)
         in case slice_from tmp (sint ofs) of
              None \<Rightarrow> Panics
            | Some dst \<Rightarrow>
                (let tmp = take (nat (sint ofs)) tmp @ snd (copy dst p);
                     f = f\<lparr>buffer := NewBuffer tmp\<rparr>;
                     f = f\<lparr>meta := (meta f)\<lparr>Size := of_nat (Buffer_Len (buffer f))\<rparr>\<rparr>;
                     f = f\<lparr>meta := (meta f)\<lparr>ModTime := now\<rparr>\<rparr>;
                     (err, db) = saveFile (name f) (Buffer_Bytes (buffer f)) (meta f) db
                 in Returns ((length p, err), f, db))))"

definition bboltFile_WriteString ::
  "bboltFile \<Rightarrow> string \<Rightarrow> int64 \<Rightarrow> BBolt \<Rightarrow> (nat \<times> error option) \<times> bboltFile \<times> BBolt" where
  "bboltFile_WriteString f s now db = bboltFile_Write f (string_bytes s) now db"

definition bboltFile_Close :: "bboltFile \<Rightarrow> error option \<times> bboltFile" where
  "bboltFile_Close f = (None, f\<lparr>closed := True\<rparr>)"

definition bboltFile_Truncate ::
  "bboltFile \<Rightarrow> int64 \<Rightarrow> int64 \<Rightarrow> BBolt \<Rightarrow> (error option \<times> bboltFile \<times> BBolt) outcome" where
  "bboltFile_Truncate f size' now db =
     (if closed f then Returns (Some ErrClosed, f, db)
      else
        (let bs = Buffer_Bytes (buffer f)
         in case (if sint size' < int (length bs) then
                    map_option NewBuffer (slice_to bs (sint size'))
                  else if int (length bs) < sint size' then
                    (let padding = make_bytes (nat (sint size' - int (length bs)))
                     in Some (snd (Buffer_Write (buffer f) padding)))
                  else Some (buffer f)) of
              None \<Rightarrow> Panics
            | Some b \<Rightarrow>
                (let f = f\<lparr>buffer := b\<rparr>;
                     f = f\<lparr>meta := (meta f)\<lparr>Size := size'\<rparr>\<rparr>;
                     f = f\<lparr>meta := (meta f)\<lparr>ModTime := now\<rparr>\<rparr>;
                     (err, db) = saveFile (name f) (Buffer_Bytes (buffer f)) (meta f) db
                 in Returns (err, f, db))))"

subsection \<open>Directory handle: dir.go\<close>

text \<open>
  The methods of a directory handle return constants; the store the handle points to is
  passed through, so that its being unchanged can be stated.
\<close>

definition bboltDirFile_Read ::
  "bboltDirFile \<Rightarrow> bytes \<Rightarrow> BBolt \<Rightarrow> (nat \<times> error option) \<times> bytes \<times> BBolt" where
  "bboltDirFile_Read d p db = ((0, Some EOF), p, db)"

definition bboltDirFile_ReadAt ::
  "bboltDirFile \<Rightarrow> bytes \<Rightarrow> int64 \<Rightarrow> BBolt \<Rightarrow> (nat \<times> error option) \<times> bytes \<times> BBolt" where
  "bboltDirFile_ReadAt d p ofs db = ((0, Some EOF), p, db)"

definition bboltDirFile_Seek ::
  "bboltDirFile \<Rightarrow> int64 \<Rightarrow> int \<Rightarrow> BBolt \<Rightarrow> (int64 \<times> error option) \<times> BBolt" where
  "bboltDirFile_Seek d ofs whence db = ((0, Some EOF), db)"

definition bboltDirFile_Write ::
  "bboltDirFile \<Rightarrow> bytes \<Rightarrow> BBolt \<Rightarrow> (nat \<times> error option) \<times> BBolt" where
  "bboltDirFile_Write d p db = ((0, Some ErrInvalid), db)"

definition bboltDirFile_WriteAt ::
  "bboltDirFile \<Rightarrow> bytes \<Rightarrow> int64 \<Rightarrow> BBolt \<Rightarrow> (nat \<times> error option) \<times> BBolt" where
  "bboltDirFile_WriteAt d p ofs db = ((0, Some ErrInvalid), db)"

definition bboltDirFile_WriteString ::
  "bboltDirFile \<Rightarrow> string \<Rightarrow> BBolt \<Rightarrow> (nat \<times> error option) \<times> BBolt" where
  "bboltDirFile_WriteString d s db = ((0, Some ErrInvalid), db)"

definition bboltDirFile_Truncate ::
  "bboltDirFile \<Rightarrow> int64 \<Rightarrow> BBolt \<Rightarrow> error option \<times> BBolt" where
  "bboltDirFile_Truncate d size' db = (Some ErrInvalid, db)"

subsection \<open>The round-trip test\<close>

text \<open>
  \<^verbatim>\<open>TestBBoltFs_Create_Write_Read\<close>, with the file name, the content and the size of the
  read buffer as parameters: create, write, close, reopen, read once into a buffer of
  \<open>n\<close> bytes, and return \<^verbatim>\<open>buf[:n]\<close>. \<open>None\<close> is a failed test step
  (\<^verbatim>\<open>t.Fatalf\<close>) or a panic.
\<close>

definition Create_Write_Read ::
  "string \<Rightarrow> bytes \<Rightarrow> nat \<Rightarrow> int64 \<Rightarrow> int64 \<Rightarrow> BBolt \<Rightarrow> bytes option" where
  "Create_Write_Read nm want sz t0 t1 db =
     (case Create nm t0 db of
        (Inl err, db) \<Rightarrow> None
      | (Inr f, db) \<Rightarrow>
          (let ((n, err), f, db) = bboltFile_Write f want t1 db
           in if err = None \<and> n = length want then
                (let (err, f) = bboltFile_Close f
                 in case Open nm db of
                      Returns (Inr (FileHandle f2)) \<Rightarrow>
                        (let bf = make_bytes sz;
                             ((n, err), bf, f2) = bboltFile_Read f2 bf
                         in if err = None \<or> err = Some EOF then Some (take n bf) else None)
                    | _ \<Rightarrow> None)
              else None))"

subsection \<open>Invariant of the file collection\<close>

text \<open>
  A stored value is well formed when it holds the 21-byte header and the header's size
  field, read as a signed integer, is the number of payload bytes after it.
\<close>

definition entry_ok :: "bytes \<Rightarrow> bool" where
  "entry_ok v = (metaLen \<le> length v \<and> sint (Size (decodeMeta v)) = int (length v) - int metaLen)"

definition files_inv :: "BBolt \<Rightarrow> bool" where
  "files_inv db = list_all (\<lambda>e. entry_ok (snd e)) (bucketFiles db)"

text \<open>
  What Go guarantees of a \<^verbatim>\<open>bytes.Buffer\<close> and that a list does not: the read cursor
  lies within the contents, and a slice has fewer than \<open>2 ^ 63\<close> elements.
\<close>

definition Buffer_ok :: "Buffer \<Rightarrow> bool" where
  "Buffer_ok b = (off b \<le> length (buf b) \<and> length (buf b) < 2 ^ 63)"

subsection \<open>Little-endian layout, in the spec's words\<close>

text \<open>
  The \<open>n\<close> little-endian base-256 digits of a number, least significant first: what
  "always little-endian" says of a fixed-width field.
\<close>

definition le_digits :: "nat \<Rightarrow> nat \<Rightarrow> nat list" where
  "le_digits n x = map (\<lambda>i. x div 256 ^ i mod 256) [0..<n]"

subsection \<open>Example states\<close>

text \<open>
  \<open>New\<close> on a fresh database file: both buckets exist and are empty. \<open>hello_db\<close> is
  the store after creating \<^verbatim>\<open>a.txt\<close> and writing \<^verbatim>\<open>hello\<close> to it, and \<open>hello_file\<close>
  the handle that \<open>Open\<close> returns for it.
\<close>

definition New :: BBolt where
  "New = \<lparr>bucketFiles = [], bucketDirs = []\<rparr>"

definition hello_db :: BBolt where
  "hello_db =
     (case Create ''a.txt'' 1 New of
        (Inr f, db) \<Rightarrow> snd (snd (bboltFile_WriteString f ''hello'' 2 db))
      | (Inl err, db) \<Rightarrow> db)"

definition hello_file :: bboltFile where
  "hello_file =
     \<lparr>name = ''a.txt'', meta = \<lparr>Mode = 438, Size = 5, ModTime = 2, IsDir = False\<rparr>,
      buffer = NewBuffer (string_bytes ''hello''), offset = 0, closed = False\<rparr>"

section \<open>Properties\<close>

subsection \<open>Metadata codec\<close>

lemma bit_byte_at64:
  "bit (push_bit k (ucast (ucast (drop_bit k (v::64 word)) :: 8 word)) :: 64 word) n
     \<longleftrightarrow> k \<le> n \<and> n < k + 8 \<and> n < 64 \<and> bit v n"
  by (auto simp: bit_simps)

lemma bit_byte_at32:
  "bit (push_bit k (ucast (ucast (drop_bit k (v::32 word)) :: 8 word)) :: 32 word) n
     \<longleftrightarrow> k \<le> n \<and> n < k + 8 \<and> n < 32 \<and> bit v n"
  by (auto simp: bit_simps)

lemma bit_byte_at64_0:
  "bit (ucast (ucast (v::64 word) :: 8 word) :: 64 word) n \<longleftrightarrow> n < 8 \<and> bit v n"
  using bit_byte_at64 [of 0 v n] by (auto simp: bit_simps)

lemma bit_byte_at32_0:
  "bit (ucast (ucast (v::32 word) :: 8 word) :: 32 word) n \<longleftrightarrow> n < 8 \<and> bit v n"
  using bit_byte_at32 [of 0 v n] by (auto simp: bit_simps)

lemma Uint32_PutUint32: "Uint32 (PutUint32 v) = v"
proof (rule bit_word_eqI)
  fix n assume "n < LENGTH(32)"
  then have n: "n < 32" by simp
  have "bit (Uint32 (PutUint32 v)) n \<longleftrightarrow>
        (n < 8 \<or> (8 \<le> n \<and> n < 16) \<or> (16 \<le> n \<and> n < 24) \<or> (24 \<le> n \<and> n < 32)) \<and> bit v n"
    using n by (simp add: PutUint32_def bit_or_iff bit_byte_at32 bit_byte_at32_0) blast
  also have "\<dots> \<longleftrightarrow> bit v n"
    using n by (cases "bit v n") (simp_all, arith)
  finally show "bit (Uint32 (PutUint32 v)) n \<longleftrightarrow> bit v n" .
qed

lemma Uint64_PutUint64: "Uint64 (PutUint64 v) = v"
proof (rule bit_word_eqI)
  fix n assume "n < LENGTH(64)"
  then have n: "n < 64" by simp
  have "bit (Uint64 (PutUint64 v)) n \<longleftrightarrow>
        (n < 8 \<or> (8 \<le> n \<and> n < 16) \<or> (16 \<le> n \<and> n < 24) \<or> (24 \<le> n \<and> n < 32)
         \<or> (32 \<le> n \<and> n < 40) \<or> (40 \<le> n \<and> n < 48) \<or> (48 \<le> n \<and> n < 56)
         \<or> (56 \<le> n \<and> n < 64)) \<and> bit v n"
    using n by (simp add: PutUint64_def bit_or_iff bit_byte_at64 bit_byte_at64_0) blast
  also have "\<dots> \<longleftrightarrow> bit v n"
    using n by (cases "bit v n") (simp_all, arith)
  finally show "bit (Uint64 (PutUint64 v)) n \<longleftrightarrow> bit v n" .
qed

lemma length_PutUint32: "length (PutUint32 v) = 4"
  by (simp add: PutUint32_def)

lemma length_PutUint64: "length (PutUint64 v) = 8"
  by (simp add: PutUint64_def)

lemma encodeMeta_eq:
  "encodeMeta m = PutUint32 (Mode m) @ PutUint64 (Size m) @ PutUint64 (ModTime m)
     @ [if IsDir m then 1 else 0]"
  by (simp add: encodeMeta_def)

lemma length_encodeMeta: "length (encodeMeta m) = 21"
  by (simp add: encodeMeta_eq length_PutUint32 length_PutUint64)

lemma ReadFull_append:
  "length xs = n \<Longrightarrow> ReadFull n (xs @ r) = (Some xs, r)"
  by (simp add: ReadFull_def)

lemma ReadFull_one: "ReadFull (Suc 0) (d # r) = (Some [d], r)"
  by (simp add: ReadFull_def)

lemma decodeMeta_fields:
  "decodeMeta (PutUint32 a @ PutUint64 b @ PutUint64 c @ [d] @ r) =
     \<lparr>Mode = a, Size = b, ModTime = c, IsDir = (d \<noteq> 0)\<rparr>"
  by (simp add: decodeMeta_def ReadFull_append ReadFull_one length_PutUint32 length_PutUint64
      Uint32_PutUint32 Uint64_PutUint64)

lemma decodeMeta_encodeMeta_append: "decodeMeta (encodeMeta m @ data) = m"
proof -
  have "decodeMeta (encodeMeta m @ data) =
        \<lparr>Mode = Mode m, Size = Size m, ModTime = ModTime m,
         IsDir = ((if IsDir m then 1 else 0 :: byte) \<noteq> 0)\<rparr>"
    using decodeMeta_fields [of "Mode m" "Size m" "ModTime m" "if IsDir m then 1 else 0" data]
    by (simp add: encodeMeta_eq)
  then show ?thesis by simp
qed

lemma map_of_insert_entry: "map_of (insert_entry k v b) = (map_of b)(k \<mapsto> v)"
  by (induction b) (auto simp: fun_eq_iff)

lemma Bucket_Get_insert_entry:
  "Bucket_Get (insert_entry k v b) k' = (if k' = k then Some v else Bucket_Get b k')"
  by (simp add: Bucket_Get_def map_of_insert_entry)

lemma Bucket_Get_filter:
  "Bucket_Get (filter (\<lambda>e. fst e \<noteq> k) b) k' = (if k' = k then None else Bucket_Get b k')"
  unfolding Bucket_Get_def by (induction b) auto

lemma saveFile_eq:
  "saveFile nm data m db =
     (None, db\<lparr>bucketFiles := insert_entry nm (encodeMeta m @ data) (bucketFiles db)\<rparr>)"
  by (simp add: saveFile_def Update_def Bucket_Put_def)

lemma Remove_eq:
  "Remove nm db = (None, db\<lparr>bucketFiles := filter (\<lambda>e. fst e \<noteq> nm) (bucketFiles db)\<rparr>)"
  by (simp add: Remove_def Update_def Bucket_Delete_def)

lemma slice_from_encodeMeta: "slice_from (encodeMeta m @ data) (int metaLen) = Some data"
  by (simp add: slice_from_def metaLen_def length_encodeMeta)

lemma loadFile_stored:
  "Bucket_Get (bucketFiles db) nm = Some (encodeMeta m @ data) \<Longrightarrow>
   loadFile nm db = Returns (data, m, None)"
  by (simp add: loadFile_def Let_def decodeMeta_encodeMeta_append slice_from_encodeMeta)

lemma loadFile_absent:
  "Bucket_Get (bucketFiles db) nm = None \<Longrightarrow>
   loadFile nm db = Returns ([], zeroMeta, Some ErrFileNotFound)"
  by (simp add: loadFile_def)

lemma unat_byte32: "unat (ucast (drop_bit k (v::32 word)) :: 8 word) = unat v div 2 ^ k mod 256"
  unfolding unsigned_ucast_eq unat_drop_bit_eq by (simp add: take_bit_eq_mod drop_bit_eq_div)

lemma unat_byte64: "unat (ucast (drop_bit k (v::64 word)) :: 8 word) = unat v div 2 ^ k mod 256"
  unfolding unsigned_ucast_eq unat_drop_bit_eq by (simp add: take_bit_eq_mod drop_bit_eq_div)

lemma upt4: "[0..<4] = [0,1,2,3]" by (simp add: upt_rec)
lemma upt8: "[0..<8] = [0,1,2,3,4,5,6,7]" by (simp add: upt_rec)

lemma PutUint32_digits: "map unat (PutUint32 v) = le_digits 4 (unat v)"
  using unat_byte32 [of 0 v] unat_byte32 [of 8 v] unat_byte32 [of 16 v] unat_byte32 [of 24 v]
  by (simp add: PutUint32_def le_digits_def upt4)

lemma PutUint64_digits: "map unat (PutUint64 v) = le_digits 8 (unat v)"
  using unat_byte64 [of 0 v] unat_byte64 [of 8 v] unat_byte64 [of 16 v] unat_byte64 [of 24 v]
    unat_byte64 [of 32 v] unat_byte64 [of 40 v] unat_byte64 [of 48 v] unat_byte64 [of 56 v]
  by (simp add: PutUint64_def le_digits_def upt8)


text \<open>
  C8. For every metadata record, \<open>encodeMeta\<close> yields exactly 21 bytes: the mode as 4
  little-endian bytes, the size as 8, the modification time as 8, then one byte for the
  directory flag; and \<open>decodeMeta\<close> gives the record back.
\<close>

theorem encodeMeta_layout_roundtrip:
  "length (encodeMeta m) = 21
   \<and> map unat (encodeMeta m) =
       le_digits 4 (unat (Mode m)) @ le_digits 8 (unat (Size m))
       @ le_digits 8 (unat (ModTime m)) @ [if IsDir m then 1 else 0]
   \<and> decodeMeta (encodeMeta m) = m"
proof -
  have "map unat (encodeMeta m) =
       le_digits 4 (unat (Mode m)) @ le_digits 8 (unat (Size m))
       @ le_digits 8 (unat (ModTime m)) @ [if IsDir m then 1 else 0]"
    by (simp add: encodeMeta_eq PutUint32_digits PutUint64_digits)
  moreover have "decodeMeta (encodeMeta m) = m"
    using decodeMeta_encodeMeta_append [of m "[]"] by simp
  ultimately show ?thesis
    by (simp add: length_encodeMeta)
qed

subsection \<open>Create, write, reopen, read\<close>

lemma Create_eq:
  "Create nm now db =
     (Inr \<lparr>name = nm, meta = \<lparr>Mode = 438, Size = 0, ModTime = now, IsDir = False\<rparr>,
           buffer = NewBuffer [], offset = 0, closed = False\<rparr>,
      db\<lparr>bucketFiles := insert_entry nm
            (encodeMeta \<lparr>Mode = 438, Size = 0, ModTime = now, IsDir = False\<rparr>) (bucketFiles db)\<rparr>)"
  by (simp add: Create_def saveFile_eq NewBuffer_def Buffer_Bytes_def Let_def)

lemma Write_open:
  "\<not> closed f \<Longrightarrow>
   bboltFile_Write f p now db =
     ((length p, None),
      f\<lparr>buffer := (buffer f)\<lparr>buf := buf (buffer f) @ p\<rparr>,
        meta := (meta f)\<lparr>Size := of_nat (length (buf (buffer f) @ p) - off (buffer f)),
                         ModTime := now\<rparr>\<rparr>,
      db\<lparr>bucketFiles := insert_entry (name f)
            (encodeMeta ((meta f)\<lparr>Size := of_nat (length (buf (buffer f) @ p) - off (buffer f)),
                                  ModTime := now\<rparr>)
             @ drop (off (buffer f)) (buf (buffer f) @ p)) (bucketFiles db)\<rparr>)"
  by (simp add: bboltFile_Write_def Buffer_Write_def saveFile_eq Buffer_Len_def Buffer_Bytes_def
      Let_def)

lemma Open_stored:
  "Bucket_Get (bucketFiles db) nm = Some (encodeMeta m @ data) \<Longrightarrow>
   Open nm db = Returns (Inr (FileHandle
     \<lparr>name = nm, meta = m, buffer = NewBuffer data, offset = 0, closed = False\<rparr>))"
  by (simp add: Open_def loadFile_stored)

lemma Read_fresh:
  "length w \<le> sz \<Longrightarrow>
   bboltFile_Read \<lparr>name = nm, meta = m, buffer = \<lparr>buf = w, off = 0\<rparr>, offset = 0, closed = False\<rparr>
     (make_bytes sz) =
   ((length w, if w = [] \<and> 0 < sz then Some EOF else None),
    w @ drop (length w) (make_bytes sz),
    \<lparr>name = nm, meta = m, buffer = \<lparr>buf = if w = [] then [] else w, off = length w\<rparr>,
     offset = 0, closed = False\<rparr>)"
  by (auto simp: bboltFile_Read_def Buffer_Read_def NewBuffer_def copy_def make_bytes_def Let_def
      min_def)

text \<open>
  C2. For every path and every byte sequence \<open>w\<close>: creating the file, writing \<open>w\<close>
  through the returned handle, closing it, opening the path again and reading once into a
  buffer that can hold \<open>w\<close> returns exactly the bytes \<open>w\<close>, in order; every step
  succeeds.
\<close>

theorem create_write_reopen_read:
  assumes "length w \<le> sz"
  shows "Create_Write_Read p w sz t t' db = Some w"
  using assms
  by (simp add: Create_Write_Read_def Create_eq Write_open Bucket_Get_insert_entry
      Open_stored Read_fresh NewBuffer_def bboltFile_Close_def Let_def)


text \<open>
  The scenario of the test: \<^verbatim>\<open>test.txt\<close>, the 15 bytes of \<^verbatim>\<open>hello, bboltfs!\<close>, a
  read buffer of 100 bytes.
\<close>

theorem create_write_reopen_read_witness:
  "length (string_bytes ''hello, bboltfs!'') = 15
   \<and> Create_Write_Read ''test.txt'' (string_bytes ''hello, bboltfs!'') 100 1 2
         \<lparr>bucketFiles = [], bucketDirs = []\<rparr>
       = Some (string_bytes ''hello, bboltfs!'')"
  using create_write_reopen_read [where w = "string_bytes ''hello, bboltfs!''" and sz = 100
      and p = "''test.txt''" and t = 1 and t' = 2
      and db = "\<lparr>bucketFiles = [], bucketDirs = []\<rparr>"]
  by (simp add: string_bytes_def)

subsection \<open>Recursive removal\<close>

lemma prefix_imp_le: "prefix p k \<Longrightarrow> p \<le> (k::string)"
proof (induction p arbitrary: k)
  case Nil
  then show ?case by simp
next
  case (Cons a p)
  then show ?case by (cases k) auto
qed

lemma prefix_between:
  "p \<le> k1 \<Longrightarrow> k1 \<le> k2 \<Longrightarrow> prefix p k2 \<Longrightarrow> prefix p (k1::string)"
proof (induction p arbitrary: k1 k2)
  case Nil
  then show ?case by simp
next
  case (Cons a p)
  from Cons.prems(3) obtain k2' where k2: "k2 = a # k2'" "prefix p k2'"
    by (cases k2) auto
  from Cons.prems(1) obtain b k1' where k1: "k1 = b # k1'"
    by (cases k1) auto
  from Cons.prems(1,2) k1 k2 have "b = a" "p \<le> k1'" "k1' \<le> k2'"
    by (auto split: if_splits)
  with Cons.IH k2 k1 show ?case by simp
qed

lemma RemoveAll_loop_eq:
  "RemoveAll_loop p c b =
     (None, filter (\<lambda>e. fst e \<notin> fst ` set (takeWhile (\<lambda>e. prefix p (fst e)) c)) b)"
proof (induction c arbitrary: b)
  case Nil
  then show ?case by simp
next
  case (Cons kv c)
  show ?case
  proof (cases "prefix p (fst kv)")
    case True
    then show ?thesis
      by (simp add: HasPrefix_def Bucket_Delete_def Cons.IH)
  next
    case False
    then show ?thesis by (simp add: HasPrefix_def)
  qed
qed

lemma takeWhile_eq_filter_sorted:
  "sorted_wrt (<) (map fst c) \<Longrightarrow> (\<forall>e\<in>set c. p \<le> fst e) \<Longrightarrow>
   takeWhile (\<lambda>e. prefix p (fst e)) c = filter (\<lambda>e. prefix p (fst e)) (c::bucket)"
proof (induction c)
  case Nil
  then show ?case by simp
next
  case (Cons e c)
  show ?case
  proof (cases "prefix p (fst e)")
    case True
    with Cons show ?thesis by simp
  next
    case False
    have "\<not> prefix p (fst x)" if "x \<in> set c" for x
    proof
      assume "prefix p (fst x)"
      moreover have "fst e \<le> fst x" using Cons.prems(1) that by auto
      moreover have "p \<le> fst e" using Cons.prems(2) by simp
      ultimately have "prefix p (fst e)" using prefix_between by blast
      with False show False ..
    qed
    then have "filter (\<lambda>e. prefix p (fst e)) c = []"
      by (simp add: filter_empty_conv)
    with False show ?thesis by simp
  qed
qed

lemma sorted_dropWhile_ge:
  "sorted_wrt (<) (map fst b) \<Longrightarrow> \<forall>e\<in>set (dropWhile (\<lambda>e. fst e < p) b). p \<le> fst (e::string \<times> bytes)"
proof (induction b)
  case Nil
  then show ?case by simp
next
  case (Cons e b)
  show ?case
  proof (cases "fst e < p")
    case True
    with Cons show ?thesis by simp
  next
    case False
    then have "p \<le> fst e" by simp
    moreover have "fst e < fst x" if "x \<in> set b" for x
      using Cons.prems that by auto
    ultimately have "p \<le> fst x" if "x \<in> set (e # b)" for x
      using that by (metis less_imp_le order_trans set_ConsD)
    then show ?thesis using False by simp
  qed
qed

lemma Cursor_Seek_prefixed:
  assumes "sorted_bucket b"
  shows "fst ` set (takeWhile (\<lambda>e. prefix p (fst e)) (Cursor_Seek b p))
         = {k \<in> fst ` set b. prefix p k}"
proof -
  let ?c = "dropWhile (\<lambda>e. fst e < p) b"
  have srt: "sorted_wrt (<) (map fst b)" using assms by (simp add: sorted_bucket_def)
  have "sorted_wrt (<) (map fst ?c)"
    using srt by (metis append_take_drop_id dropWhile_eq_drop map_append sorted_wrt_append)
  then have tw: "takeWhile (\<lambda>e. prefix p (fst e)) ?c = filter (\<lambda>e. prefix p (fst e)) ?c"
    using sorted_dropWhile_ge [OF srt] by (rule takeWhile_eq_filter_sorted)
  have "{e \<in> set ?c. prefix p (fst e)} = {e \<in> set b. prefix p (fst e)}"
  proof -
    have "e \<in> set ?c" if "e \<in> set b" "prefix p (fst e)" for e
    proof -
      have "\<not> fst e < p" using prefix_imp_le [OF that(2)] by simp
      moreover have "set b = set (takeWhile (\<lambda>e. fst e < p) b) \<union> set ?c"
        by (metis set_append takeWhile_dropWhile_id)
      ultimately show ?thesis using that(1) by (auto dest: set_takeWhileD)
    qed
    moreover have "e \<in> set b" if "e \<in> set ?c" for e
      using that by (rule set_dropWhileD)
    ultimately show ?thesis by blast
  qed
  then show ?thesis
    unfolding Cursor_Seek_def tw by auto
qed

text \<open>The store keeps a bucket in key order: \<open>New\<close> starts there, put and delete stay.\<close>

lemma keys_insert_entry: "fst ` set (insert_entry k v b) = insert k (fst ` set b)"
  by (induction b) auto

lemma sorted_insert_entry:
  "sorted_bucket b \<Longrightarrow> sorted_bucket (insert_entry k v b)"
proof (induction b)
  case Nil
  then show ?case by (simp add: sorted_bucket_def)
next
  case (Cons e b)
  show ?case
  proof (cases "k < fst e")
    case True
    with Cons.prems show ?thesis
      by (auto simp: sorted_bucket_def intro: less_trans)
  next
    case False
    show ?thesis
    proof (cases "k = fst e")
      case True
      with Cons.prems show ?thesis by (simp add: sorted_bucket_def)
    next
      case ne: False
      with False have lt: "fst e < k" by simp
      have "fst e < x" if "x \<in> fst ` set (insert_entry k v b)" for x
        using that lt Cons.prems unfolding keys_insert_entry
        by (auto simp: sorted_bucket_def)
      moreover have "sorted_bucket (insert_entry k v b)"
        using Cons by (simp add: sorted_bucket_def)
      ultimately show ?thesis
        using False ne by (auto simp: sorted_bucket_def)
    qed
  qed
qed

lemma sorted_filter_bucket:
  "sorted_bucket b \<Longrightarrow> sorted_bucket (filter P b)"
  unfolding sorted_bucket_def by (induction b) auto


lemma sorted_saveFile:
  "sorted_bucket (bucketFiles db) \<Longrightarrow> sorted_bucket (bucketFiles (snd (saveFile nm data m db)))"
  by (simp add: saveFile_eq sorted_insert_entry)

lemma sorted_Remove:
  "sorted_bucket (bucketFiles db) \<Longrightarrow> sorted_bucket (bucketFiles (snd (Remove nm db)))"
  by (simp add: Remove_eq sorted_filter_bucket)

text \<open>
  C6. On a file collection in key order, \<open>RemoveAll p\<close> deletes exactly the file keys
  that have \<open>p\<close> as a bytewise prefix, then the one directory key equal to \<open>p\<close>, and
  returns no error, whether or not anything matched.
\<close>

theorem RemoveAll_prefix:
  assumes "sorted_bucket (bucketFiles db)"
  shows "RemoveAll p db =
     (None, db\<lparr>bucketFiles := filter (\<lambda>e. \<not> prefix p (fst e)) (bucketFiles db),
               bucketDirs := filter (\<lambda>e. fst e \<noteq> p) (bucketDirs db)\<rparr>)"
proof -
  have "filter (\<lambda>e. fst e \<notin> fst ` set (takeWhile (\<lambda>e. prefix p (fst e))
            (Cursor_Seek (bucketFiles db) p))) (bucketFiles db)
        = filter (\<lambda>e. \<not> prefix p (fst e)) (bucketFiles db)"
    unfolding Cursor_Seek_prefixed [OF assms] by (rule filter_cong) auto
  then show ?thesis
    by (simp add: RemoveAll_def Update_def RemoveAll_loop_eq Bucket_Delete_def Let_def)
qed


text \<open>
  Removing the directory \<^verbatim>\<open>ab\<close> also deletes the sibling file \<^verbatim>\<open>abc.txt\<close>;
  \<^verbatim>\<open>b.txt\<close> stays.
\<close>

theorem RemoveAll_prefix_witness:
  "sorted_bucket (bucketFiles
      (snd (Create ''b.txt'' 4 (snd (Create ''abc.txt'' 3 (snd (Create ''ab/x'' 2
        (snd (Mkdir ''ab'' 493 1 \<lparr>bucketFiles = [], bucketDirs = []\<rparr>)))))))))
   \<and> RemoveAll ''ab''
      (snd (Create ''b.txt'' 4 (snd (Create ''abc.txt'' 3 (snd (Create ''ab/x'' 2
        (snd (Mkdir ''ab'' 493 1 \<lparr>bucketFiles = [], bucketDirs = []\<rparr>))))))))
     = (None, snd (Create ''b.txt'' 4 \<lparr>bucketFiles = [], bucketDirs = []\<rparr>))"
  using RemoveAll_prefix [where p = "''ab''" and db =
      "snd (Create ''b.txt'' 4 (snd (Create ''abc.txt'' 3 (snd (Create ''ab/x'' 2
        (snd (Mkdir ''ab'' 493 1 \<lparr>bucketFiles = [], bucketDirs = []\<rparr>)))))))"]
  by (simp add: Create_eq Mkdir_def saveDir_def Update_def Bucket_Put_def sorted_bucket_def)

subsection \<open>The example states are reachable\<close>

lemma hello_db_eq:
  "hello_db = \<lparr>bucketFiles = [(''a.txt'',
      encodeMeta \<lparr>Mode = 438, Size = 5, ModTime = 2, IsDir = False\<rparr> @ string_bytes ''hello'')],
     bucketDirs = []\<rparr>"
  by (simp add: hello_db_def New_def Create_eq bboltFile_WriteString_def Write_open
      NewBuffer_def string_bytes_def)

lemma Open_hello_db: "Open ''a.txt'' hello_db = Returns (Inr (FileHandle hello_file))"
  by (simp add: hello_db_eq Open_stored Bucket_Get_def hello_file_def)

subsection \<open>Seek\<close>

lemma Seek_ok:
  "bboltFile_Seek f ofs whence = ((pos, None), f') \<Longrightarrow> \<not> closed f \<and> f' = f\<lparr>offset := pos\<rparr>"
  by (auto simp: bboltFile_Seek_def split: if_splits option.splits)

lemma Read_offset:
  "bboltFile_Read (f\<lparr>offset := pos\<rparr>) p =
     (let (r, q, g) = bboltFile_Read f p in (r, q, g\<lparr>offset := pos\<rparr>))"
  by (simp add: bboltFile_Read_def Let_def split: prod.splits)

lemma Write_offset:
  "bboltFile_Write (f\<lparr>offset := pos\<rparr>) p now db =
     (let (r, g, db') = bboltFile_Write f p now db in (r, g\<lparr>offset := pos\<rparr>, db'))"
  by (simp add: bboltFile_Write_def Buffer_Write_def saveFile_eq Let_def split: prod.splits)

lemma Read_open_bytes:
  "\<not> closed f \<Longrightarrow>
   fst (snd (bboltFile_Read f p)) =
     take (length p) (Buffer_Bytes (buffer f)) @ drop (length (Buffer_Bytes (buffer f))) p"
  by (auto simp: bboltFile_Read_def Buffer_Read_def Buffer_Bytes_def copy_def Let_def min_def
      split: prod.splits)

lemma Write_open_bytes:
  "\<not> closed f \<Longrightarrow> off (buffer f) \<le> length (buf (buffer f)) \<Longrightarrow>
   Buffer_Bytes (buffer (fst (snd (bboltFile_Write f p now db)))) = Buffer_Bytes (buffer f) @ p"
  by (simp add: Write_open Buffer_Bytes_def)

text \<open>
  C3, at the input where the code departs from it. On the handle of a 5-byte file,
  \<open>Seek 2 SeekStart\<close> records position 2; \<open>Seek 1 SeekCurrent\<close> then returns 6, the
  length of the buffer plus 1, where a position relative to the current one is 3:
  the \<^verbatim>\<open>io.SeekCurrent\<close> case has the body of the \<^verbatim>\<open>io.SeekEnd\<close> case.
\<close>

theorem Seek_current_is_end:
  "bboltFile_Seek hello_file 2 SeekStart = ((2, None), hello_file\<lparr>offset := 2\<rparr>)
   \<and> bboltFile_Seek (hello_file\<lparr>offset := 2\<rparr>) 1 SeekCurrent
       = ((6, None), hello_file\<lparr>offset := 6\<rparr>)
   \<and> bboltFile_Seek (hello_file\<lparr>offset := 2\<rparr>) 1 SeekEnd
       = ((6, None), hello_file\<lparr>offset := 6\<rparr>)"
  by (simp add: bboltFile_Seek_def SeekStart_def SeekCurrent_def SeekEnd_def hello_file_def
      string_bytes_def NewBuffer_def Buffer_Len_def)

text \<open>
  C10. After a successful \<open>Seek\<close> the handle differs from the one before only in the
  recorded position, and neither \<open>Read\<close> nor \<open>Write\<close> looks at it: with or without the
  seek they return the same results, leave the same store and the same handle up to the
  recorded position; \<open>Read\<close> takes the bytes at the buffer's read cursor, \<open>Write\<close>
  appends to the buffer.
\<close>

theorem seek_position_unused:
  assumes "bboltFile_Seek f ofs whence = ((pos, None), f')"
  shows "f' = f\<lparr>offset := pos\<rparr>
    \<and> bboltFile_Read f' p = (let (r, q, g) = bboltFile_Read f p in (r, q, g\<lparr>offset := pos\<rparr>))
    \<and> bboltFile_Write f' p now db =
        (let (r, g, db') = bboltFile_Write f p now db in (r, g\<lparr>offset := pos\<rparr>, db'))
    \<and> fst (snd (bboltFile_Read f' p)) =
        take (length p) (Buffer_Bytes (buffer f)) @ drop (length (Buffer_Bytes (buffer f))) p
    \<and> buf (buffer (fst (snd (bboltFile_Write f' p now db)))) = buf (buffer f) @ p"
proof -
  from assms have f': "\<not> closed f" "f' = f\<lparr>offset := pos\<rparr>"
    using Seek_ok by blast+
  have c: "\<not> closed f'" using f' by simp
  then have "fst (snd (bboltFile_Read f' p)) =
     take (length p) (Buffer_Bytes (buffer f')) @ drop (length (Buffer_Bytes (buffer f'))) p"
    by (rule Read_open_bytes)
  moreover have "buf (buffer (fst (snd (bboltFile_Write f' p now db)))) = buf (buffer f') @ p"
    using c by (simp add: Write_open)
  ultimately show ?thesis
    unfolding f'(2) by (simp add: Read_offset Write_offset)
qed

text \<open>
  After seeking to position 3 of \<^verbatim>\<open>hello\<close>, a read of two bytes still returns
  \<^verbatim>\<open>he\<close>, and a write of \<^verbatim>\<open>!\<close> still gives \<^verbatim>\<open>hello!\<close>.
\<close>

theorem seek_position_unused_witness:
  "bboltFile_Seek hello_file 3 SeekStart = ((3, None), hello_file\<lparr>offset := 3\<rparr>)
   \<and> fst (snd (bboltFile_Read (hello_file\<lparr>offset := 3\<rparr>) [0, 0])) = string_bytes ''he''
   \<and> buf (buffer (fst (snd (bboltFile_Write (hello_file\<lparr>offset := 3\<rparr>)
        (string_bytes ''!'') 3 hello_db)))) = string_bytes ''hello!''"
proof -
  have s: "bboltFile_Seek hello_file 3 SeekStart = ((3, None), hello_file\<lparr>offset := 3\<rparr>)"
    by (simp add: bboltFile_Seek_def SeekStart_def hello_file_def)
  note r = seek_position_unused [OF s, where p = "[0, 0]" and now = 3 and db = hello_db]
  note w = seek_position_unused [OF s, where p = "string_bytes ''!''" and now = 3
      and db = hello_db]
  have "fst (snd (bboltFile_Read (hello_file\<lparr>offset := 3\<rparr>) [0, 0])) = string_bytes ''he''"
    unfolding r [THEN conjunct2, THEN conjunct2, THEN conjunct2, THEN conjunct1]
    by (simp add: hello_file_def NewBuffer_def Buffer_Bytes_def string_bytes_def)
  moreover have "buf (buffer (fst (snd (bboltFile_Write (hello_file\<lparr>offset := 3\<rparr>)
        (string_bytes ''!'') 3 hello_db)))) = string_bytes ''hello!''"
    unfolding w [THEN conjunct2, THEN conjunct2, THEN conjunct2, THEN conjunct2]
    by (simp add: hello_file_def NewBuffer_def string_bytes_def)
  ultimately show ?thesis
    using s by simp
qed

subsection \<open>WriteAt\<close>

text \<open>
  C1, at the inputs where the code departs from it. \<open>WriteAt\<close> copies \<open>p\<close> into
  \<^verbatim>\<open>tmp[off:]\<close>, a slice that ends where the (padded) buffer ends, so the bytes of
  \<open>p\<close> beyond that end are dropped and the buffer is never extended past \<open>off\<close>;
  the call still returns \<^verbatim>\<open>len(p)\<close> and no error. On a newly created file
  \<open>WriteAt "abc" 0\<close> writes nothing; on \<^verbatim>\<open>hello\<close>, \<open>WriteAt "XYZ" 3\<close> leaves
  \<^verbatim>\<open>helXY\<close>.
\<close>

theorem WriteAt_does_not_extend:
  "bboltFile_WriteAt
     \<lparr>name = ''a.txt'', meta = \<lparr>Mode = 438, Size = 0, ModTime = 1, IsDir = False\<rparr>,
      buffer = NewBuffer [], offset = 0, closed = False\<rparr>
     (string_bytes ''abc'') 0 2 New
   = Returns ((3, None),
       \<lparr>name = ''a.txt'', meta = \<lparr>Mode = 438, Size = 0, ModTime = 2, IsDir = False\<rparr>,
        buffer = NewBuffer [], offset = 0, closed = False\<rparr>,
       \<lparr>bucketFiles =
          [(''a.txt'', encodeMeta \<lparr>Mode = 438, Size = 0, ModTime = 2, IsDir = False\<rparr>)],
        bucketDirs = []\<rparr>)
   \<and> bboltFile_WriteAt hello_file (string_bytes ''XYZ'') 3 4 hello_db
   = Returns ((3, None),
       hello_file\<lparr>buffer := NewBuffer (string_bytes ''helXY''),
                  meta := \<lparr>Mode = 438, Size = 5, ModTime = 4, IsDir = False\<rparr>\<rparr>,
       \<lparr>bucketFiles =
          [(''a.txt'', encodeMeta \<lparr>Mode = 438, Size = 5, ModTime = 4, IsDir = False\<rparr>
             @ string_bytes ''helXY'')],
        bucketDirs = []\<rparr>)"
  by (simp add: bboltFile_WriteAt_def hello_file_def hello_db_eq New_def string_bytes_def
      NewBuffer_def Buffer_Bytes_def Buffer_Len_def make_bytes_def copy_def slice_from_def
      saveFile_eq Let_def)

subsection \<open>ReadAt\<close>

lemma ReadAt_open:
  assumes "\<not> closed f" and "0 \<le> sint ofs"
  shows "bboltFile_ReadAt f p ofs =
     (let bs = Buffer_Bytes (buffer f);
          n = min (length p) (length bs - nat (sint ofs))
      in Returns ((n, if n = 0 then Some EOF else None),
                  take n (drop (nat (sint ofs)) bs) @ drop n p, f))"
proof (cases "int (length (Buffer_Bytes (buffer f))) \<le> sint ofs")
  case True
  with assms show ?thesis
    by (simp add: bboltFile_ReadAt_def Let_def)
next
  case False
  with assms have sl: "slice_from (Buffer_Bytes (buffer f)) (sint ofs)
      = Some (drop (nat (sint ofs)) (Buffer_Bytes (buffer f)))"
    by (simp add: slice_from_def)
  from False assms show ?thesis
    by (auto simp: bboltFile_ReadAt_def sl copy_def Let_def min_def)
qed

text \<open>
  C5 as stated fails at two inputs. With an empty destination \<open>ReadAt\<close> returns
  \<^verbatim>\<open>io.EOF\<close> although offset 0 lies inside the 5-byte payload (the guard
  \<^verbatim>\<open>if n == 0\<close>). And \<open>ReadAt\<close> reads from \<^verbatim>\<open>buffer.Bytes()\<close>, the unread part:
  after a sequential read of two bytes, offset 0 yields \<^verbatim>\<open>llo\<close> where it yielded
  \<^verbatim>\<open>hel\<close> before.
\<close>

theorem ReadAt_counterexample:
  "bboltFile_ReadAt hello_file [] 0 = Returns ((0, Some EOF), [], hello_file)
   \<and> bboltFile_ReadAt hello_file [0, 0, 0] 0
       = Returns ((3, None), string_bytes ''hel'', hello_file)
   \<and> bboltFile_Read hello_file [0, 0]
       = ((2, None), string_bytes ''he'',
          hello_file\<lparr>buffer := \<lparr>buf = string_bytes ''hello'', off = 2\<rparr>\<rparr>)
   \<and> bboltFile_ReadAt (hello_file\<lparr>buffer := \<lparr>buf = string_bytes ''hello'', off = 2\<rparr>\<rparr>)
        [0, 0, 0] 0
       = Returns ((3, None), string_bytes ''llo'',
           hello_file\<lparr>buffer := \<lparr>buf = string_bytes ''hello'', off = 2\<rparr>\<rparr>)"
  by (simp add: bboltFile_ReadAt_def bboltFile_Read_def Buffer_Read_def hello_file_def
      string_bytes_def NewBuffer_def Buffer_Bytes_def copy_def slice_from_def Let_def)

text \<open>
  C5, amended. For an open handle and a non-negative offset, \<open>ReadAt\<close> returns the
  handle as it was, so the read cursor does not move and a later sequential read is
  unaffected. On a handle from which nothing has been read sequentially it copies
  \<open>min (len into) (len snapshot - offset)\<close> bytes of the snapshot from the offset on, and
  the error is \<^verbatim>\<open>io.EOF\<close> exactly when the offset is at or beyond the snapshot's length
  or the destination is empty, and \<^verbatim>\<open>nil\<close> otherwise.
\<close>

theorem ReadAt_snapshot:
  assumes "\<not> closed f" and "0 \<le> sint ofs"
  shows "\<exists>n err q. bboltFile_ReadAt f p ofs = Returns ((n, err), q, f)
     \<and> (off (buffer f) = 0 \<longrightarrow>
          n = min (length p) (length (buf (buffer f)) - nat (sint ofs))
        \<and> q = take n (drop (nat (sint ofs)) (buf (buffer f))) @ drop n p
        \<and> (err = Some EOF \<longleftrightarrow> length (buf (buffer f)) \<le> nat (sint ofs) \<or> p = [])
        \<and> (err = None \<or> err = Some EOF))"
  unfolding ReadAt_open [OF assms]
  by (auto simp: Let_def Buffer_Bytes_def min_def)


theorem ReadAt_snapshot_witness:
  "\<not> closed hello_file \<and> 0 \<le> sint (1 :: int64) \<and> off (buffer hello_file) = 0
   \<and> bboltFile_ReadAt hello_file [0, 0, 0] 1
       = Returns ((3, None), string_bytes ''ell'', hello_file)"
proof -
  have h: "\<not> closed hello_file" "0 \<le> sint (1 :: int64)"
    by (simp_all add: hello_file_def)
  show ?thesis
    using ReadAt_snapshot [OF h, of "[0, 0, 0]"]
    by (auto simp: hello_file_def NewBuffer_def string_bytes_def)
qed

subsection \<open>Directory handle\<close>

text \<open>
  C4 as stated fails: \<open>Read\<close>, \<open>ReadAt\<close> and \<open>Seek\<close> on a directory handle return
  \<^verbatim>\<open>io.EOF\<close>, not \<^verbatim>\<open>os.ErrInvalid\<close>.
\<close>

theorem dir_handle_read_not_invalid:
  "bboltDirFile_Read \<lparr>dname = ''d'', dmeta = zeroMeta\<rparr> [0] New = ((0, Some EOF), [0], New)
   \<and> bboltDirFile_ReadAt \<lparr>dname = ''d'', dmeta = zeroMeta\<rparr> [0] 0 New
       = ((0, Some EOF), [0], New)
   \<and> bboltDirFile_Seek \<lparr>dname = ''d'', dmeta = zeroMeta\<rparr> 0 SeekStart New
       = ((0, Some EOF), New)
   \<and> EOF \<noteq> ErrInvalid"
  by (simp add: bboltDirFile_Read_def bboltDirFile_ReadAt_def bboltDirFile_Seek_def)

text \<open>
  C4, amended. On every directory handle \<open>Write\<close>, \<open>WriteAt\<close>, \<open>WriteString\<close> and
  \<open>Truncate\<close> are rejected with \<^verbatim>\<open>os.ErrInvalid\<close>; \<open>Seek\<close>, \<open>Read\<close> and \<open>ReadAt\<close>
  return 0 and \<^verbatim>\<open>io.EOF\<close>; none of the seven changes the store or the caller's
  slice.
\<close>

theorem dir_handle_rejects:
  "bboltDirFile_Write d p db = ((0, Some ErrInvalid), db)
   \<and> bboltDirFile_WriteAt d p ofs db = ((0, Some ErrInvalid), db)
   \<and> bboltDirFile_WriteString d s db = ((0, Some ErrInvalid), db)
   \<and> bboltDirFile_Truncate d sz db = (Some ErrInvalid, db)
   \<and> bboltDirFile_Seek d ofs whence db = ((0, Some EOF), db)
   \<and> bboltDirFile_Read d p db = ((0, Some EOF), p, db)
   \<and> bboltDirFile_ReadAt d p ofs db = ((0, Some EOF), p, db)"
  by (simp add: bboltDirFile_Write_def bboltDirFile_WriteAt_def bboltDirFile_WriteString_def
      bboltDirFile_Truncate_def bboltDirFile_Seek_def bboltDirFile_Read_def
      bboltDirFile_ReadAt_def)


subsection \<open>Rename\<close>

lemma Open_FileHandleD:
  assumes "Open nm db = Returns (Inr (FileHandle h))"
  shows "\<exists>v. Bucket_Get (bucketFiles db) nm = Some v \<and> metaLen \<le> length v
     \<and> loadFile nm db = Returns (drop metaLen v, decodeMeta v, None)
     \<and> h = \<lparr>name = nm, meta = decodeMeta v, buffer = NewBuffer (drop metaLen v),
            offset = 0, closed = False\<rparr>"
proof (cases "Bucket_Get (bucketFiles db) nm")
  case None
  with assms show ?thesis
    by (simp add: Open_def loadFile_def split: option.splits)
next
  case (Some v)
  with assms show ?thesis
    by (auto simp: Open_def loadFile_def slice_from_def Let_def split: option.splits if_splits)
qed

lemma Open_absent:
  "Bucket_Get (bucketFiles db) nm = None \<Longrightarrow> Bucket_Get (bucketDirs db) nm = None \<Longrightarrow>
   Open nm db = Returns (Inl ErrFileNotFound)"
  by (simp add: Open_def loadFile_def)

lemma Rename_absent:
  "Bucket_Get (bucketFiles db) oldname = None \<Longrightarrow>
   Rename oldname newname db = Returns (Some ErrFileNotFound, db)"
  by (simp add: Rename_def loadFile_def)

lemma Rename_loaded:
  "loadFile oldname db = Returns (data, m, None) \<Longrightarrow>
   Rename oldname newname db =
     Returns (None, db\<lparr>bucketFiles := filter (\<lambda>e. fst e \<noteq> oldname)
        (insert_entry newname (encodeMeta m @ data) (bucketFiles db))\<rparr>)"
  by (simp add: Rename_def saveFile_eq Remove_eq)

text \<open>
  C7 as stated fails at two inputs. Renaming a file to its own name writes the entry and
  then deletes it: afterwards \<open>Open\<close> of the new name fails. And when the old name is
  also a key of the directory collection, \<open>Open\<close> of the old name returns a directory
  handle after the rename, not a not-found error.
\<close>

theorem Rename_counterexample:
  "Rename ''a.txt'' ''a.txt'' hello_db = Returns (None, New)
   \<and> Open ''a.txt'' New = Returns (Inl ErrNotExist)
   \<and> Rename ''a.txt'' ''b.txt'' (snd (Mkdir ''a.txt'' 493 3 hello_db))
       = Returns (None, \<lparr>bucketFiles = [(''b.txt'',
            encodeMeta \<lparr>Mode = 438, Size = 5, ModTime = 2, IsDir = False\<rparr>
              @ string_bytes ''hello'')],
          bucketDirs = [(''a.txt'',
            encodeMeta \<lparr>Mode = 493 OR ModeDir, Size = 0, ModTime = 3, IsDir = True\<rparr>)]\<rparr>)
   \<and> Open ''a.txt'' \<lparr>bucketFiles = [(''b.txt'',
            encodeMeta \<lparr>Mode = 438, Size = 5, ModTime = 2, IsDir = False\<rparr>
              @ string_bytes ''hello'')],
          bucketDirs = [(''a.txt'',
            encodeMeta \<lparr>Mode = 493 OR ModeDir, Size = 0, ModTime = 3, IsDir = True\<rparr>)]\<rparr>
       = Returns (Inr (DirHandle \<lparr>dname = ''a.txt'',
            dmeta = \<lparr>Mode = 493 OR ModeDir, Size = 0, ModTime = 3, IsDir = True\<rparr>\<rparr>))"
proof -
  have l: "loadFile ''a.txt'' hello_db = Returns (string_bytes ''hello'',
      \<lparr>Mode = 438, Size = 5, ModTime = 2, IsDir = False\<rparr>, None)"
    by (rule loadFile_stored) (simp add: hello_db_eq Bucket_Get_def)
  have l': "loadFile ''a.txt'' (snd (Mkdir ''a.txt'' 493 3 hello_db))
      = Returns (string_bytes ''hello'',
          \<lparr>Mode = 438, Size = 5, ModTime = 2, IsDir = False\<rparr>, None)"
    by (rule loadFile_stored)
      (simp add: hello_db_eq Bucket_Get_def Mkdir_def saveDir_def Update_def Bucket_Put_def)
  have d: "decodeMeta (encodeMeta \<lparr>Mode = 493 OR ModeDir, Size = 0, ModTime = 3, IsDir = True\<rparr>)
      = \<lparr>Mode = 493 OR ModeDir, Size = 0, ModTime = 3, IsDir = True\<rparr>"
    using decodeMeta_encodeMeta_append [of _ "[]"] by simp
  show ?thesis
    unfolding Rename_loaded [OF l] Rename_loaded [OF l']
    by (simp add: hello_db_eq New_def Mkdir_def saveDir_def Update_def Bucket_Put_def
        Open_def loadFile_def Bucket_Get_def ErrFileNotFound_def d)
qed

text \<open>
  C7, amended. For two different paths: when the file collection has no entry at the old
  path, \<open>Rename\<close> fails with the not-found error and leaves the store as it was.
  Otherwise it succeeds, the old key is gone from the file collection, the directory
  collection is untouched, \<open>Open\<close> of the new path returns a file handle with the
  metadata and content that \<open>Open\<close> of the old path returned before, and \<open>Open\<close> of
  the old path fails with not-found provided the directory collection has no entry there.
\<close>

theorem Rename_moves_file:
  assumes "oldname \<noteq> newname"
  shows "(Bucket_Get (bucketFiles db) oldname = None \<longrightarrow>
            Rename oldname newname db = Returns (Some ErrFileNotFound, db))
     \<and> (\<forall>h. Open oldname db = Returns (Inr (FileHandle h)) \<longrightarrow>
          (\<exists>db'. Rename oldname newname db = Returns (None, db')
             \<and> Open newname db' = Returns (Inr (FileHandle (h\<lparr>name := newname\<rparr>)))
             \<and> Bucket_Get (bucketFiles db') oldname = None
             \<and> bucketDirs db' = bucketDirs db
             \<and> (Bucket_Get (bucketDirs db) oldname = None \<longrightarrow>
                   Open oldname db' = Returns (Inl ErrFileNotFound))))"
proof (intro conjI allI impI)
  assume "Bucket_Get (bucketFiles db) oldname = None"
  then show "Rename oldname newname db = Returns (Some ErrFileNotFound, db)"
    by (rule Rename_absent)
next
  fix h
  assume "Open oldname db = Returns (Inr (FileHandle h))"
  then obtain v where v: "loadFile oldname db = Returns (drop metaLen v, decodeMeta v, None)"
    and h: "h = \<lparr>name = oldname, meta = decodeMeta v, buffer = NewBuffer (drop metaLen v),
            offset = 0, closed = False\<rparr>"
    using Open_FileHandleD by blast
  let ?db = "db\<lparr>bucketFiles := filter (\<lambda>e. fst e \<noteq> oldname)
        (insert_entry newname (encodeMeta (decodeMeta v) @ drop metaLen v) (bucketFiles db))\<rparr>"
  have r: "Rename oldname newname db = Returns (None, ?db)"
    using v by (rule Rename_loaded)
  have "Bucket_Get (bucketFiles ?db) newname = Some (encodeMeta (decodeMeta v) @ drop metaLen v)"
    using assms by (simp add: Bucket_Get_filter Bucket_Get_insert_entry)
  then have n: "Open newname ?db = Returns (Inr (FileHandle (h\<lparr>name := newname\<rparr>)))"
    unfolding h by (simp add: Open_stored)
  have o: "Bucket_Get (bucketFiles ?db) oldname = None"
    by (simp add: Bucket_Get_filter)
  have d: "Open oldname ?db = Returns (Inl ErrFileNotFound)"
    if "Bucket_Get (bucketDirs db) oldname = None"
    using o that by (simp add: Open_absent)
  show "\<exists>db'. Rename oldname newname db = Returns (None, db')
             \<and> Open newname db' = Returns (Inr (FileHandle (h\<lparr>name := newname\<rparr>)))
             \<and> Bucket_Get (bucketFiles db') oldname = None
             \<and> bucketDirs db' = bucketDirs db
             \<and> (Bucket_Get (bucketDirs db) oldname = None \<longrightarrow>
                   Open oldname db' = Returns (Inl ErrFileNotFound))"
    using r n o d by (intro exI [of _ ?db]) simp
qed


theorem Rename_moves_file_witness:
  "''a.txt'' \<noteq> ''b.txt''
   \<and> Open ''a.txt'' hello_db = Returns (Inr (FileHandle hello_file))
   \<and> Bucket_Get (bucketDirs hello_db) ''a.txt'' = None
   \<and> (\<exists>db'. Rename ''a.txt'' ''b.txt'' hello_db = Returns (None, db')
         \<and> Open ''b.txt'' db' = Returns (Inr (FileHandle (hello_file\<lparr>name := ''b.txt''\<rparr>)))
         \<and> Open ''a.txt'' db' = Returns (Inl ErrFileNotFound))"
proof -
  have n: "''a.txt'' \<noteq> ''b.txt''" by simp
  have d: "Bucket_Get (bucketDirs hello_db) ''a.txt'' = None"
    by (simp add: hello_db_eq Bucket_Get_def)
  show ?thesis
    using Rename_moves_file [OF n, of hello_db] Open_hello_db d n by blast
qed

subsection \<open>Invariant of the file collection\<close>

lemma sint_of_nat64: "n < 2 ^ 63 \<Longrightarrow> sint (of_nat n :: int64) = int n"
proof -
  assume "n < 2 ^ 63"
  then have "int n < 2 ^ 63" by (metis of_nat_less_numeral_power_cancel_iff)
  then show ?thesis
    by (simp add: signed_of_nat signed_take_bit_int_eq_self)
qed

lemma sint_lt64: "sint (x :: int64) < 2 ^ 63"
  using sint_lt [of x] by simp

lemma entry_ok_encoded:
  "entry_ok (encodeMeta m @ data) \<longleftrightarrow> sint (Size m) = int (length data)"
  by (simp add: entry_ok_def decodeMeta_encodeMeta_append length_encodeMeta metaLen_def)

lemma list_all_insert_entry:
  "P (k, v) \<Longrightarrow> list_all P b \<Longrightarrow> list_all P (insert_entry k v b)"
  by (induction b) auto

lemma files_inv_insert:
  "files_inv db \<Longrightarrow> entry_ok v \<Longrightarrow> files_inv (db\<lparr>bucketFiles := insert_entry k v (bucketFiles db)\<rparr>)"
  by (simp add: files_inv_def list_all_insert_entry)

lemma files_inv_filter:
  "files_inv db \<Longrightarrow> files_inv (db\<lparr>bucketFiles := filter P (bucketFiles db)\<rparr>)"
  by (simp add: files_inv_def list_all_iff)

lemma files_inv_saveFile:
  "files_inv db \<Longrightarrow> sint (Size m) = int (length data) \<Longrightarrow> files_inv (snd (saveFile nm data m db))"
  by (simp add: saveFile_eq files_inv_insert entry_ok_encoded)

lemma files_inv_Create: "files_inv db \<Longrightarrow> files_inv (snd (Create nm now db))"
  using entry_ok_encoded [of "\<lparr>Mode = 438, Size = 0, ModTime = now, IsDir = False\<rparr>" "[]"]
  by (simp add: Create_eq files_inv_insert)

lemma files_inv_Write:
  assumes "files_inv db" and "length (buf (buffer f)) + length p < 2 ^ 63"
  shows "files_inv (snd (snd (bboltFile_Write f p now db)))"
proof (cases "closed f")
  case True
  with assms show ?thesis by (simp add: bboltFile_Write_def)
next
  case False
  have "length (buf (buffer f) @ p) - off (buffer f) < 2 ^ 63"
    using assms(2) by simp
  then have "sint (of_nat (length (buf (buffer f) @ p) - off (buffer f)) :: int64)
      = int (length (buf (buffer f) @ p) - off (buffer f))"
    by (rule sint_of_nat64)
  with assms(1) False show ?thesis
    by (simp add: Write_open files_inv_insert entry_ok_encoded)
qed

lemma files_inv_loaded:
  assumes "files_inv db" and "Bucket_Get (bucketFiles db) nm = Some v"
  shows "loadFile nm db = Returns (drop metaLen v, decodeMeta v, None)
         \<and> sint (Size (decodeMeta v)) = int (length (drop metaLen v))"
proof -
  have "(nm, v) \<in> set (bucketFiles db)"
    using assms(2) by (simp add: Bucket_Get_def map_of_SomeD)
  then have "entry_ok v"
    using assms(1) by (auto simp: files_inv_def list_all_iff)
  then show ?thesis
    using assms(2) by (auto simp: entry_ok_def loadFile_def slice_from_def Let_def)
qed

lemma files_inv_Chmod:
  assumes "files_inv db"
  shows "\<exists>r db'. Chmod nm mode db = Returns (r, db') \<and> files_inv db'"
proof (cases "Bucket_Get (bucketFiles db) nm")
  case None
  with assms show ?thesis by (simp add: Chmod_def loadFile_def)
next
  case (Some v)
  from files_inv_loaded [OF assms Some] assms show ?thesis
    by (simp add: Chmod_def saveFile_eq files_inv_insert entry_ok_encoded)
qed

lemma files_inv_Chtimes:
  assumes "files_inv db"
  shows "\<exists>r db'. Chtimes nm atime mtime db = Returns (r, db') \<and> files_inv db'"
proof (cases "Bucket_Get (bucketFiles db) nm")
  case None
  with assms show ?thesis by (simp add: Chtimes_def loadFile_def)
next
  case (Some v)
  from files_inv_loaded [OF assms Some] assms show ?thesis
    by (simp add: Chtimes_def saveFile_eq files_inv_insert entry_ok_encoded)
qed

lemma files_inv_Rename:
  assumes "files_inv db"
  shows "\<exists>r db'. Rename oldname newname db = Returns (r, db') \<and> files_inv db'"
proof (cases "Bucket_Get (bucketFiles db) oldname")
  case None
  with assms show ?thesis by (simp add: Rename_def loadFile_def)
next
  case (Some v)
  from files_inv_loaded [OF assms Some]
  have l: "loadFile oldname db = Returns (drop metaLen v, decodeMeta v, None)"
    and s: "sint (Size (decodeMeta v)) = int (length (drop metaLen v))" by simp_all
  have "files_inv (db\<lparr>bucketFiles := insert_entry newname
      (encodeMeta (decodeMeta v) @ drop metaLen v) (bucketFiles db)\<rparr>)"
    using assms s by (simp add: files_inv_insert entry_ok_encoded)
  then have "files_inv (db\<lparr>bucketFiles := filter (\<lambda>e. fst e \<noteq> oldname) (insert_entry newname
      (encodeMeta (decodeMeta v) @ drop metaLen v) (bucketFiles db))\<rparr>)"
    using files_inv_filter by fastforce
  then show ?thesis
    by (simp add: Rename_loaded [OF l])
qed


lemma files_inv_WriteAt:
  assumes "files_inv db" and "Buffer_ok (buffer f)" and "0 \<le> sint ofs"
  shows "\<exists>r g db'. bboltFile_WriteAt f p ofs now db = Returns (r, g, db') \<and> files_inv db'"
proof (cases "closed f")
  case True
  with assms show ?thesis by (simp add: bboltFile_WriteAt_def)
next
  case False
  let ?bs = "Buffer_Bytes (buffer f)"
  let ?n = "nat (sint ofs)"
  let ?bs' = "if int (length ?bs) < sint ofs then ?bs @ replicate (?n - length ?bs) 0 else ?bs"
  let ?c = "take ?n ?bs' @ snd (copy (drop ?n ?bs') p)"
  have wf: "off (buffer f) \<le> length (buf (buffer f))" "length ?bs < 2 ^ 63"
    using assms(2) by (simp_all add: Buffer_ok_def Buffer_Bytes_def less_imp_diff_less)
  have n: "?n < 2 ^ 63"
    using sint_lt64 [of ofs] assms(3) by (simp add: nat_less_iff)
  have len': "length ?bs' = max (length ?bs) ?n"
    using assms(3) by auto
  have le: "?n \<le> length ?bs'"
    unfolding len' by simp
  have "length ?c = length ?bs'"
    using le by (simp add: copy_def Let_def)
  then have lc: "length ?c < 2 ^ 63"
    using len' wf(2) n by simp
  have sl: "slice_from ?bs' (sint ofs) = Some (drop ?n ?bs')"
    using le assms(3) by (simp add: slice_from_def)
  have pad: "Buffer_Bytes (snd (Buffer_Write (buffer f) (make_bytes (?n - length ?bs))))
      = ?bs @ replicate (?n - length ?bs) 0"
    using wf(1) by (simp add: Buffer_Write_def Buffer_Bytes_def make_bytes_def)
  have cp: "snd (copy (make_bytes k) xs) = xs" if "k = length xs" for xs :: bytes and k
    using that by (simp add: copy_def make_bytes_def)
  have "bboltFile_WriteAt f p ofs now db =
      Returns ((length p, None),
        f\<lparr>buffer := NewBuffer ?c,
          meta := (meta f)\<lparr>Size := of_nat (length ?c), ModTime := now\<rparr>\<rparr>,
        db\<lparr>bucketFiles := insert_entry (name f)
          (encodeMeta ((meta f)\<lparr>Size := of_nat (length ?c), ModTime := now\<rparr>) @ ?c)
          (bucketFiles db)\<rparr>)"
  proof (cases "int (length ?bs) < sint ofs")
    case True
    then have eq: "nat (sint ofs - int (length ?bs)) = ?n - length ?bs" by simp
    from True False show ?thesis
      using sl
      by (simp add: bboltFile_WriteAt_def Let_def eq pad cp saveFile_eq NewBuffer_def
          Buffer_Len_def Buffer_Bytes_def [of "\<lparr>buf = _, off = 0\<rparr>"])
  next
    case F: False
    with False show ?thesis
      using sl
      by (simp add: bboltFile_WriteAt_def Let_def cp saveFile_eq NewBuffer_def
          Buffer_Len_def Buffer_Bytes_def [of "\<lparr>buf = _, off = 0\<rparr>"])
  qed
  moreover have "files_inv (db\<lparr>bucketFiles := insert_entry (name f)
          (encodeMeta ((meta f)\<lparr>Size := of_nat (length ?c), ModTime := now\<rparr>) @ ?c)
          (bucketFiles db)\<rparr>)"
    using assms(1) sint_of_nat64 [OF lc] by (simp add: files_inv_insert entry_ok_encoded)
  ultimately show ?thesis by simp
qed


lemma files_inv_Truncate:
  assumes "files_inv db" and "Buffer_ok (buffer f)" and "0 \<le> sint sz"
  shows "\<exists>r g db'. bboltFile_Truncate f sz now db = Returns (r, g, db') \<and> files_inv db'"
proof (cases "closed f")
  case True
  with assms show ?thesis by (simp add: bboltFile_Truncate_def)
next
  case False
  let ?bs = "Buffer_Bytes (buffer f)"
  have wf: "off (buffer f) \<le> length (buf (buffer f))"
    using assms(2) by (simp add: Buffer_ok_def)
  consider (shrink) "sint sz < int (length ?bs)" | (grow) "int (length ?bs) < sint sz"
    | (same) "sint sz = int (length ?bs)" by linarith
  then obtain b where b: "bboltFile_Truncate f sz now db =
      Returns (None, f\<lparr>buffer := b, meta := (meta f)\<lparr>Size := sz, ModTime := now\<rparr>\<rparr>,
        db\<lparr>bucketFiles := insert_entry (name f)
          (encodeMeta ((meta f)\<lparr>Size := sz, ModTime := now\<rparr>) @ Buffer_Bytes b)
          (bucketFiles db)\<rparr>)"
    and l: "int (length (Buffer_Bytes b)) = sint sz"
  proof cases
    case shrink
    then have "slice_to ?bs (sint sz) = Some (take (nat (sint sz)) ?bs)"
      using assms(3) by (simp add: slice_to_def)
    with shrink False have "bboltFile_Truncate f sz now db =
      Returns (None, f\<lparr>buffer := NewBuffer (take (nat (sint sz)) ?bs),
          meta := (meta f)\<lparr>Size := sz, ModTime := now\<rparr>\<rparr>,
        db\<lparr>bucketFiles := insert_entry (name f)
          (encodeMeta ((meta f)\<lparr>Size := sz, ModTime := now\<rparr>)
            @ Buffer_Bytes (NewBuffer (take (nat (sint sz)) ?bs)))
          (bucketFiles db)\<rparr>)"
      by (simp add: bboltFile_Truncate_def Let_def saveFile_eq)
    moreover have "int (length (Buffer_Bytes (NewBuffer (take (nat (sint sz)) ?bs)))) = sint sz"
      using shrink assms(3) by (simp add: NewBuffer_def Buffer_Bytes_def [of "\<lparr>buf = _, off = 0\<rparr>"])
    ultimately show ?thesis using that by blast
  next
    case grow
    let ?b = "snd (Buffer_Write (buffer f) (make_bytes (nat (sint sz - int (length ?bs)))))"
    from grow False have "bboltFile_Truncate f sz now db =
      Returns (None, f\<lparr>buffer := ?b, meta := (meta f)\<lparr>Size := sz, ModTime := now\<rparr>\<rparr>,
        db\<lparr>bucketFiles := insert_entry (name f)
          (encodeMeta ((meta f)\<lparr>Size := sz, ModTime := now\<rparr>) @ Buffer_Bytes ?b)
          (bucketFiles db)\<rparr>)"
      by (simp add: bboltFile_Truncate_def Let_def saveFile_eq)
    moreover have "int (length (Buffer_Bytes ?b)) = sint sz"
      using grow wf by (simp add: Buffer_Write_def Buffer_Bytes_def make_bytes_def)
    ultimately show ?thesis using that by blast
  next
    case same
    with False have "bboltFile_Truncate f sz now db =
      Returns (None, f\<lparr>buffer := buffer f, meta := (meta f)\<lparr>Size := sz, ModTime := now\<rparr>\<rparr>,
        db\<lparr>bucketFiles := insert_entry (name f)
          (encodeMeta ((meta f)\<lparr>Size := sz, ModTime := now\<rparr>) @ Buffer_Bytes (buffer f))
          (bucketFiles db)\<rparr>)"
      by (simp add: bboltFile_Truncate_def Let_def saveFile_eq)
    moreover have "int (length (Buffer_Bytes (buffer f))) = sint sz"
      using same by simp
    ultimately show ?thesis using that by blast
  qed
  have "files_inv (db\<lparr>bucketFiles := insert_entry (name f)
          (encodeMeta ((meta f)\<lparr>Size := sz, ModTime := now\<rparr>) @ Buffer_Bytes b)
          (bucketFiles db)\<rparr>)"
    using assms(1) l by (simp add: files_inv_insert entry_ok_encoded)
  with b show ?thesis by simp
qed

lemma WriteAt_negative:
  "sint ofs < 0 \<Longrightarrow> \<not> closed f \<Longrightarrow> bboltFile_WriteAt f p ofs now db = Panics"
  by (simp add: bboltFile_WriteAt_def slice_from_def Let_def)

lemma Truncate_negative:
  "sint sz < 0 \<Longrightarrow> \<not> closed f \<Longrightarrow> bboltFile_Truncate f sz now db = Panics"
  by (simp add: bboltFile_Truncate_def slice_to_def Let_def)

lemma files_inv_WriteAt_cases:
  assumes "files_inv db" and "Buffer_ok (buffer f)"
  shows "case bboltFile_WriteAt f p ofs now db of
           Returns (r, g, db') \<Rightarrow> files_inv db'
         | Panics \<Rightarrow> \<not> closed f \<and> sint ofs < 0"
proof (cases "0 \<le> sint ofs")
  case True
  from files_inv_WriteAt [OF assms True, of p now] show ?thesis by auto
next
  case False
  show ?thesis
  proof (cases "closed f")
    case True
    with assms(1) show ?thesis by (simp add: bboltFile_WriteAt_def)
  next
    case c: False
    with False show ?thesis by (simp add: WriteAt_negative)
  qed
qed

lemma files_inv_Truncate_cases:
  assumes "files_inv db" and "Buffer_ok (buffer f)"
  shows "case bboltFile_Truncate f sz now db of
           Returns (r, g, db') \<Rightarrow> files_inv db'
         | Panics \<Rightarrow> \<not> closed f \<and> sint sz < 0"
proof (cases "0 \<le> sint sz")
  case True
  from files_inv_Truncate [OF assms True, of now] show ?thesis by auto
next
  case False
  show ?thesis
  proof (cases "closed f")
    case True
    with assms(1) show ?thesis by (simp add: bboltFile_Truncate_def)
  next
    case c: False
    with False show ?thesis by (simp add: Truncate_negative)
  qed
qed

text \<open>
  C9. Every value of the file collection holds the 21-byte header, and its decoded size
  field is the length of the payload after the header. The invariant holds after
  \<open>Create\<close> and is kept by \<open>Write\<close>, \<open>WriteAt\<close>, \<open>Truncate\<close>, \<open>Chmod\<close>,
  \<open>Chtimes\<close> and \<open>Rename\<close>. \<open>Chmod\<close>, \<open>Chtimes\<close> and \<open>Rename\<close> return;
  \<open>WriteAt\<close> and \<open>Truncate\<close> return, unless the handle is open and the offset or
  size is negative, where they panic before the store is touched. The hypotheses on the
  handle say what Go guarantees of its buffer: the cursor inside the contents, fewer
  than \<open>2 ^ 63\<close> bytes, also after the write.
\<close>

theorem files_inv_preserved:
  assumes "files_inv db"
    and "Buffer_ok (buffer f)"
    and "length (buf (buffer f)) + length p < 2 ^ 63"
  shows "files_inv (snd (Create nm now db))
    \<and> files_inv (snd (snd (bboltFile_Write f p now db)))
    \<and> (case bboltFile_WriteAt f p ofs now db of
          Returns (r, g, db') \<Rightarrow> files_inv db'
        | Panics \<Rightarrow> \<not> closed f \<and> sint ofs < 0)
    \<and> (case bboltFile_Truncate f sz now db of
          Returns (r, g, db') \<Rightarrow> files_inv db'
        | Panics \<Rightarrow> \<not> closed f \<and> sint sz < 0)
    \<and> (\<exists>r db'. Chmod nm mode db = Returns (r, db') \<and> files_inv db')
    \<and> (\<exists>r db'. Chtimes nm atime mtime db = Returns (r, db') \<and> files_inv db')
    \<and> (\<exists>r db'. Rename nm newname db = Returns (r, db') \<and> files_inv db')"
  using files_inv_Create [OF assms(1)] files_inv_Write [OF assms(1,3)]
    files_inv_WriteAt_cases [OF assms(1,2)] files_inv_Truncate_cases [OF assms(1,2)]
    files_inv_Chmod [OF assms(1)] files_inv_Chtimes [OF assms(1)] files_inv_Rename [OF assms(1)]
  by blast

text \<open>
  The empty store satisfies the invariant, and so does the store holding \<^verbatim>\<open>a.txt\<close>,
  to whose handle the theorem applies: the entries stored by a write of one byte, a
  write at offset 7 and a truncation to 2 bytes are well formed.
\<close>

theorem files_inv_preserved_witness:
  "files_inv New \<and> files_inv hello_db \<and> Buffer_ok (buffer hello_file)
   \<and> length (buf (buffer hello_file)) + length (string_bytes ''!'') < 2 ^ 63
   \<and> files_inv (snd (Create ''b.txt'' 5 hello_db))
   \<and> files_inv (snd (snd (bboltFile_Write hello_file (string_bytes ''!'') 5 hello_db)))
   \<and> (case bboltFile_WriteAt hello_file (string_bytes ''!'') 7 5 hello_db of
         Returns (r, g, db') \<Rightarrow> files_inv db'
       | Panics \<Rightarrow> \<not> closed hello_file \<and> sint (7 :: int64) < 0)
   \<and> (case bboltFile_Truncate hello_file 2 5 hello_db of
         Returns (r, g, db') \<Rightarrow> files_inv db'
       | Panics \<Rightarrow> \<not> closed hello_file \<and> sint (2 :: int64) < 0)"
proof -
  have i: "files_inv hello_db"
    by (simp add: hello_db_eq files_inv_def entry_ok_encoded string_bytes_def)
  have b: "Buffer_ok (buffer hello_file)"
    by (simp add: hello_file_def NewBuffer_def Buffer_ok_def string_bytes_def)
  have l: "length (buf (buffer hello_file)) + length (string_bytes ''!'') < 2 ^ 63"
    by (simp add: hello_file_def NewBuffer_def string_bytes_def)
  have n: "files_inv New"
    by (simp add: New_def files_inv_def)
  show ?thesis
    using files_inv_preserved [OF i b l, where nm = "''b.txt''" and now = 5 and ofs = 7
        and sz = 2] i b l n
    by simp
qed

end
